theory Spec2Isabelle
  imports Complex_Main
begin

section \<open>Python values and payloads\<close>

text \<open>
  A payload is a Python \<open>dict\<close> received from an external API. Its values are
  untyped: the model carries the values a decoded JSON document can hold (floats apart),
  and the payload itself as a map from string keys to such values.
\<close>

datatype pyval =
    PyNone
  | PyBool bool
  | PyInt int
  | PyStr string
  | PyList "pyval list"
  | PyDict "(pyval \<times> pyval) list"

type_synonym payload = "string \<rightharpoonup> pyval"

text \<open>Python's truth value of an object, as \<open>not x\<close> and \<open>x and y\<close> test it.\<close>

fun truthy :: "pyval \<Rightarrow> bool" where
  "truthy PyNone = False"
| "truthy (PyBool b) = b"
| "truthy (PyInt i) = (i \<noteq> 0)"
| "truthy (PyStr s) = (s \<noteq> [])"
| "truthy (PyList xs) = (xs \<noteq> [])"
| "truthy (PyDict kvs) = (kvs \<noteq> [])"

text \<open>\<open>payload.get(key)\<close>: the value under the key, \<open>None\<close> when the key is absent.\<close>

definition dict_get :: "payload \<Rightarrow> string \<Rightarrow> pyval" where
  "dict_get payload key = (case payload key of None \<Rightarrow> PyNone | Some v \<Rightarrow> v)"

text \<open>
  The exceptions the modelled functions raise: the builtin \<open>ValueError\<close> with its
  message, and the trapped signals \<open>InvalidOperation\<close> and \<open>Overflow\<close> of the
  \<open>decimal\<close> module.
\<close>

datatype error = ValueError string | InvalidOperation | Overflow

section \<open>module\_example: process\_message\<close>

text \<open>The message of the exception, \<open>Missing 'text'\<close> with its two apostrophes.\<close>

definition missing_text_msg :: string where
  "missing_text_msg = ''Missing '' @ [CHR 0x27] @ ''text'' @ [CHR 0x27]"

text \<open>
  \<^verbatim>\<open>
  text = payload.get("text")
  if not text:
      raise ValueError("Missing 'text'")
  return text, payload.get("chat_session_id"), payload.get("chat_user_id")
  \<close>
\<close>

definition process_message :: "payload \<Rightarrow> error + (pyval \<times> pyval \<times> pyval)" where
  "process_message payload =
     (let text = dict_get payload ''text'' in
      if \<not> truthy text then Inl (ValueError missing_text_msg)
      else Inr (text, dict_get payload ''chat_session_id'', dict_get payload ''chat_user_id''))"


text \<open>
  The specification's reading of a payload that fails validation: the key \<open>text\<close> is
  absent, or its value is empty (an empty string; an empty list or dictionary is counted
  as empty too).
\<close>

definition spec_text_absent_or_empty :: "payload \<Rightarrow> bool" where
  "spec_text_absent_or_empty payload =
     (case payload ''text'' of
        None \<Rightarrow> True
      | Some v \<Rightarrow> v = PyStr [] \<or> v = PyList [] \<or> v = PyDict [])"

section \<open>class\_example: IdentificationAgent\<close>

record IdentificationAgent =
  identified :: bool
  account_uuid :: "string option"

text \<open>
  \<^verbatim>\<open>
  def __init__(self) -> None:
      self.identified: bool = False
      self.account_uuid: str | None = None
  \<close>
\<close>

definition IdentificationAgent_init :: IdentificationAgent where
  "IdentificationAgent_init = \<lparr>identified = False, account_uuid = None\<rparr>"

text \<open>\<open>s.startswith(p)\<close> on strings.\<close>

fun startswith :: "string \<Rightarrow> string \<Rightarrow> bool" where
  "startswith s [] = True"
| "startswith [] (p # ps) = False"
| "startswith (c # cs) (p # ps) = (c = p \<and> startswith cs ps)"

text \<open>
  The test the stub provider applies to a token: \<open>token and token.startswith("valid-")\<close>.
\<close>

definition token_accepted :: "string \<Rightarrow> bool" where
  "token_accepted token = (token \<noteq> [] \<and> startswith token ''valid-'')"

text \<open>
  \<^verbatim>\<open>
  def identify(self, token: str) -> bool:
      if token and token.startswith("valid-"):
          self.identified = True
          self.account_uuid = "uuid-1234"
      return self.identified
  \<close>
  The method mutates the agent; the model returns the value together with the agent
  after the call.
\<close>

definition identify :: "string \<Rightarrow> IdentificationAgent \<Rightarrow> bool \<times> IdentificationAgent" where
  "identify token self =
     (let self' =
            (if token_accepted token
             then self\<lparr>identified := True, account_uuid := Some ''uuid-1234''\<rparr>
             else self)
      in (identified self', self'))"

text \<open>A finite sequence of \<open>identify\<close> calls on one agent, in order.\<close>

fun identify_all :: "string list \<Rightarrow> IdentificationAgent \<Rightarrow> IdentificationAgent" where
  "identify_all [] self = self"
| "identify_all (t # ts) self = identify_all ts (snd (identify t self))"

text \<open>The pairing invariant of the two attributes.\<close>

definition paired :: "IdentificationAgent \<Rightarrow> bool" where
  "paired self = ((account_uuid self \<noteq> None) = identified self)"

section \<open>function\_example: calculate\_discount\<close>

subsection \<open>Python's Decimal numbers in the default context\<close>

text \<open>
  \<open>calculate_discount\<close> computes with \<open>decimal.Decimal\<close> of Python's standard library.
  A \<open>Decimal\<close> is a sign, a coefficient and an exponent (the number
  \<open>(-1)^sign * coefficient * 10^exponent\<close>), an infinity, or a quiet or signalling
  NaN with a payload. The constructor is exact, so every such value can be an argument.
  Arithmetic is not exact: each result is rounded to the precision of the thread's
  context and checked against its exponent range. The model follows the operations of
  the library's reference implementation (\<open>_pydecimal\<close>) in the default context:
  \<open>prec = 28\<close>, \<open>rounding = ROUND_HALF_EVEN\<close>, \<open>Emax = 999999\<close>, \<open>Emin = -999999\<close>,
  \<open>clamp = 0\<close>, traps on \<open>InvalidOperation\<close>, \<open>DivisionByZero\<close> and \<open>Overflow\<close>. A
  trapped signal is an exception; the other signals only set flags of the context, which
  the model leaves out.
\<close>

datatype decimal =
    Finite bool nat int
  | Infinity bool
  | NaN bool nat
  | sNaN bool nat

definition prec :: nat where
  "prec = 28"

definition Emax :: int where
  "Emax = 999999"

definition Emin :: int where
  "Emin = - 999999"

definition Etiny :: int where
  "Etiny = Emin - int prec + 1"

definition Etop :: int where
  "Etop = Emax - int prec + 1"

text \<open>\<open>len(self._int)\<close>: the number of decimal digits of a coefficient (one for zero).\<close>

fun ndigits :: "nat \<Rightarrow> nat" where
  "ndigits n = (if n < 10 then 1 else Suc (ndigits (n div 10)))"

declare ndigits.simps [simp del]

text \<open>\<open>Decimal(i)\<close> for an integer \<open>i\<close>: exact, with exponent zero.\<close>

definition Decimal_of_int :: "int \<Rightarrow> decimal" where
  "Decimal_of_int i = Finite (i < 0) (nat \<bar>i\<bar>) 0"

fun is_nan :: "decimal \<Rightarrow> bool" where
  "is_nan (NaN s p) = True"
| "is_nan (sNaN s p) = True"
| "is_nan d = False"

fun is_snan :: "decimal \<Rightarrow> bool" where
  "is_snan (sNaN s p) = True"
| "is_snan d = False"

fun is_infinite :: "decimal \<Rightarrow> bool" where
  "is_infinite (Infinity s) = True"
| "is_infinite d = False"

fun dec_sign :: "decimal \<Rightarrow> bool" where
  "dec_sign (Finite s c e) = s"
| "dec_sign (Infinity s) = s"
| "dec_sign (NaN s p) = s"
| "dec_sign (sNaN s p) = s"

text \<open>\<open>__bool__\<close>: false for the zeros only.\<close>

fun dec_bool :: "decimal \<Rightarrow> bool" where
  "dec_bool (Finite s c e) = (c \<noteq> 0)"
| "dec_bool d = True"

text \<open>\<open>_fix_nan\<close>: a payload longer than the precision keeps its last \<open>prec\<close> digits.\<close>

fun fix_nan :: "decimal \<Rightarrow> decimal" where
  "fix_nan (NaN s p) = NaN s (if ndigits p > prec then p mod 10 ^ prec else p)"
| "fix_nan (sNaN s p) = sNaN s (if ndigits p > prec then p mod 10 ^ prec else p)"
| "fix_nan d = d"

text \<open>
  \<open>_round_half_even(self, digits)\<close> for a coefficient \<open>c\<close> of which the first \<open>digits\<close>
  digits are kept: \<open>1\<close> to round the kept part up, \<open>0\<close> when the dropped digits are all
  zero, \<open>-1\<close> to truncate. With \<open>k\<close> digits dropped, the dropped part is
  \<open>c mod 10^k\<close>; it is an exact half when twice it is \<open>10^k\<close>, and its first digit is
  one of 5 to 9 when twice it is at least \<open>10^k\<close>.
\<close>

definition round_half_even :: "nat \<Rightarrow> nat \<Rightarrow> int" where
  "round_half_even c digits =
     (let k = ndigits c - digits; kept = c div 10 ^ k; rest = c mod 10 ^ k in
      if 2 * rest = 10 ^ k \<and> even kept then - 1
      else if 10 ^ k \<le> 2 * rest then 1
      else if rest = 0 then 0
      else - 1)"

text \<open>
  \<open>_fix\<close>: what every arithmetic result goes through. A zero has its exponent clamped
  into \<open>[Etiny, Emax]\<close>. A result whose adjusted exponent is above \<open>Emax\<close> signals
  \<open>Overflow\<close>, which is trapped. A coefficient of more than \<open>prec\<close> digits, or an
  exponent below \<open>Etiny\<close>, is rounded half-even; a carry out of the top digit drops the
  last digit and raises the exponent.
\<close>

fun dec_fix :: "decimal \<Rightarrow> error + decimal" where
  "dec_fix (Finite s c e) =
     (if c = 0 then Inr (Finite s 0 (min (max e Etiny) Emax))
      else
        let exp_min = int (ndigits c) + e - int prec in
        if exp_min > Etop then Inl Overflow
        else
          let exp_min = (if exp_min < Etiny then Etiny else exp_min) in
          if e < exp_min then
            let digits = int (ndigits c) + e - exp_min;
                c1 = (if digits < 0 then 1 else c);
                digits1 = (if digits < 0 then 0 else nat digits);
                changed = round_half_even c1 digits1;
                coeff = c1 div 10 ^ (ndigits c1 - digits1);
                coeff1 = (if changed > 0 then coeff + 1 else coeff);
                carry = (changed > 0 \<and> ndigits coeff1 > prec);
                coeff2 = (if carry then coeff1 div 10 else coeff1);
                exp_min1 = (if carry then exp_min + 1 else exp_min)
            in if exp_min1 > Etop then Inl Overflow else Inr (Finite s coeff2 exp_min1)
          else Inr (Finite s c e))"
| "dec_fix (Infinity s) = Inr (Infinity s)"
| "dec_fix (NaN s p) = Inr (fix_nan (NaN s p))"
| "dec_fix (sNaN s p) = Inr (fix_nan (sNaN s p))"

declare dec_fix.simps [simp del]

text \<open>
  \<open>_check_nans\<close>: a signalling NaN operand signals \<open>InvalidOperation\<close> (trapped); a
  quiet NaN operand is the result; \<open>None\<close> when neither operand is a NaN.
\<close>

definition check_nans :: "decimal \<Rightarrow> decimal \<Rightarrow> (error + decimal) option" where
  "check_nans a b =
     (if is_snan a \<or> is_snan b then Some (Inl InvalidOperation)
      else if is_nan a then Some (Inr (fix_nan a))
      else if is_nan b then Some (Inr (fix_nan b))
      else None)"

text \<open>
  \<open>__mul__\<close>. On finite operands the coefficients are multiplied, the exponents added
  and the result fixed (the library's short cuts for a zero and for a coefficient \<open>1\<close>
  build the same triple). The last equation of \<open>dec_mul_finite\<close> is never reached from
  \<open>dec_mul\<close>, which has dealt with the special values before.
\<close>

fun dec_mul_finite :: "decimal \<Rightarrow> decimal \<Rightarrow> error + decimal" where
  "dec_mul_finite (Finite sa ca ea) (Finite sb cb eb) =
     dec_fix (Finite (sa \<noteq> sb) (ca * cb) (ea + eb))"
| "dec_mul_finite a b = Inl InvalidOperation"

definition dec_mul :: "decimal \<Rightarrow> decimal \<Rightarrow> error + decimal" where
  "dec_mul a b =
     (case check_nans a b of
        Some ans \<Rightarrow> ans
      | None \<Rightarrow>
          if is_infinite a then
            (if \<not> dec_bool b then Inl InvalidOperation
             else Inr (Infinity (dec_sign a \<noteq> dec_sign b)))
          else if is_infinite b then
            (if \<not> dec_bool a then Inl InvalidOperation
             else Inr (Infinity (dec_sign a \<noteq> dec_sign b)))
          else dec_mul_finite a b)"

text \<open>\<open>_rescale\<close>: the same number at another exponent, padded with zeros or rounded.\<close>

fun dec_rescale :: "decimal \<Rightarrow> int \<Rightarrow> decimal" where
  "dec_rescale (Finite s c e) new_exp =
     (if c = 0 then Finite s 0 new_exp
      else if e \<ge> new_exp then Finite s (c * 10 ^ nat (e - new_exp)) new_exp
      else
        let digits = int (ndigits c) + e - new_exp;
            c1 = (if digits < 0 then 1 else c);
            digits1 = (if digits < 0 then 0 else nat digits);
            changed = round_half_even c1 digits1;
            coeff = c1 div 10 ^ (ndigits c1 - digits1)
        in Finite s (if changed = 1 then coeff + 1 else coeff) new_exp)"
| "dec_rescale d new_exp = d"

text \<open>
  \<open>__add__\<close>, with \<open>_normalize\<close> written out: the operand of the larger exponent is
  \<open>tmp\<close>, the other one \<open>other\<close>; an \<open>other\<close> too small to matter is replaced by
  \<open>1\<close> at an exponent just below what rounding can see, and \<open>tmp\<close> is padded to the
  exponent of \<open>other\<close>. The coefficients are then added or subtracted and the result
  fixed. An exact zero sum is positive under \<open>ROUND_HALF_EVEN\<close>.
\<close>

fun dec_add_finite :: "decimal \<Rightarrow> decimal \<Rightarrow> error + decimal" where
  "dec_add_finite (Finite sa ca ea) (Finite sb cb eb) =
     (let new_exp = min ea eb in
      if ca = 0 \<and> cb = 0 then dec_fix (Finite (sa \<and> sb) 0 new_exp)
      else if ca = 0 then
        dec_fix (dec_rescale (Finite sb cb eb) (max new_exp (eb - int prec - 1)))
      else if cb = 0 then
        dec_fix (dec_rescale (Finite sa ca ea) (max new_exp (ea - int prec - 1)))
      else
        let tmp_int = (if ea < eb then cb else ca);
            tmp_exp = (if ea < eb then eb else ea);
            other_int = (if ea < eb then ca else cb);
            other_exp = (if ea < eb then ea else eb);
            exp1 = tmp_exp + min (- 1) (int (ndigits tmp_int) - int prec - 2);
            small = (int (ndigits other_int) + other_exp - 1 < exp1);
            other_int = (if small then 1 else other_int);
            other_exp = (if small then exp1 else other_exp);
            tmp_int = tmp_int * 10 ^ nat (tmp_exp - other_exp);
            op1 = (if ea < eb then other_int else tmp_int);
            op2 = (if ea < eb then tmp_int else other_int)
        in
          if sa \<noteq> sb then
            (if op1 = op2 then dec_fix (Finite False 0 new_exp)
             else if op1 < op2 then dec_fix (Finite sb (op2 - op1) other_exp)
             else dec_fix (Finite sa (op1 - op2) other_exp))
          else dec_fix (Finite sa (op1 + op2) other_exp))"
| "dec_add_finite a b = Inl InvalidOperation"

definition dec_add :: "decimal \<Rightarrow> decimal \<Rightarrow> error + decimal" where
  "dec_add a b =
     (case check_nans a b of
        Some ans \<Rightarrow> ans
      | None \<Rightarrow>
          if is_infinite a then
            (if dec_sign a \<noteq> dec_sign b \<and> is_infinite b then Inl InvalidOperation
             else Inr a)
          else if is_infinite b then Inr b
          else dec_add_finite a b)"

text \<open>\<open>_isinfinity\<close>: \<open>1\<close> for \<open>+Infinity\<close>, \<open>-1\<close> for \<open>-Infinity\<close>, \<open>0\<close> otherwise.\<close>

definition isinfinity :: "decimal \<Rightarrow> int" where
  "isinfinity d = (if is_infinite d then (if dec_sign d then - 1 else 1) else 0)"

text \<open>\<open>(-1) ** sign\<close>.\<close>

definition sign_unit :: "bool \<Rightarrow> int" where
  "sign_unit s = (if s then - 1 else 1)"

text \<open>
  \<open>_cmp\<close> on operands that are not NaNs: \<open>-1\<close>, \<open>0\<close> or \<open>1\<close>. Zeros are equal
  whatever their signs; numbers of one sign are compared by their adjusted exponents and
  then by their coefficients padded to a common exponent.
\<close>

fun dec_cmp :: "decimal \<Rightarrow> decimal \<Rightarrow> int" where
  "dec_cmp (Finite sa ca ea) (Finite sb cb eb) =
     (if ca = 0 then (if cb = 0 then 0 else - sign_unit sb)
      else if cb = 0 then sign_unit sa
      else if sa \<and> \<not> sb then - 1
      else if sb \<and> \<not> sa then 1
      else
        let self_adjusted = ea + int (ndigits ca) - 1;
            other_adjusted = eb + int (ndigits cb) - 1
        in
          if self_adjusted = other_adjusted then
            let self_padded = ca * 10 ^ nat (ea - eb);
                other_padded = cb * 10 ^ nat (eb - ea)
            in if self_padded = other_padded then 0
               else if self_padded < other_padded then - sign_unit sa
               else sign_unit sa
          else if self_adjusted > other_adjusted then sign_unit sa
          else - sign_unit sa)"
| "dec_cmp a b =
     (if isinfinity a = isinfinity b then 0
      else if isinfinity a < isinfinity b then - 1
      else 1)"

text \<open>
  \<open>__lt__\<close>: a comparison with a NaN, quiet or signalling, signals
  \<open>InvalidOperation\<close>, which is trapped.
\<close>

definition dec_lt :: "decimal \<Rightarrow> decimal \<Rightarrow> error + bool" where
  "dec_lt a b =
     (if is_nan a \<or> is_nan b then Inl InvalidOperation
      else Inr (dec_cmp a b < 0))"

text \<open>
  The builtin \<open>min(x, y)\<close> keeps \<open>x\<close> unless \<open>y < x\<close>.
\<close>

definition py_min :: "decimal \<Rightarrow> decimal \<Rightarrow> error + decimal" where
  "py_min x y =
     (case dec_lt y x of
        Inl err \<Rightarrow> Inl err
      | Inr smaller \<Rightarrow> Inr (if smaller then y else x))"

subsection \<open>The function\<close>

text \<open>
  \<^verbatim>\<open>
  if amount < 0:
      raise ValueError("Negative amount")
  base = Decimal("0.05") + Decimal(user_tier) * Decimal("0.05")
  discount = amount * base
  cap = amount * Decimal("0.3")
  return min(discount, cap)
  \<close>
  \<open>Decimal("0.05")\<close> is the coefficient \<open>5\<close> at exponent \<open>-2\<close>, \<open>Decimal("0.3")\<close> the
  coefficient \<open>3\<close> at exponent \<open>-1\<close>, and the integer \<open>0\<close> of the comparison is
  converted to \<open>Decimal(0)\<close>.
\<close>

definition calculate_discount :: "int \<Rightarrow> decimal \<Rightarrow> error + decimal" where
  "calculate_discount user_tier amount =
     (case dec_lt amount (Decimal_of_int 0) of
        Inl err \<Rightarrow> Inl err
      | Inr True \<Rightarrow> Inl (ValueError ''Negative amount'')
      | Inr False \<Rightarrow>
          (case dec_mul (Decimal_of_int user_tier) (Finite False 5 (- 2)) of
             Inl err \<Rightarrow> Inl err
           | Inr tiered \<Rightarrow>
               (case dec_add (Finite False 5 (- 2)) tiered of
                  Inl err \<Rightarrow> Inl err
                | Inr base \<Rightarrow>
                    (case dec_mul amount base of
                       Inl err \<Rightarrow> Inl err
                     | Inr discount \<Rightarrow>
                         (case dec_mul amount (Finite False 3 (- 1)) of
                            Inl err \<Rightarrow> Inl err
                          | Inr cap \<Rightarrow> py_min discount cap)))))"

subsection \<open>The numbers that Decimals denote\<close>

text \<open>The exact rational value of a finite Decimal, and its absolute value.\<close>

definition fin_val :: "bool \<Rightarrow> nat \<Rightarrow> int \<Rightarrow> rat" where
  "fin_val s c e = of_int (sign_unit s) * of_nat c * power_int 10 e"

definition mag :: "nat \<Rightarrow> int \<Rightarrow> rat" where
  "mag c e = of_nat c * power_int 10 e"

fun dec_val :: "decimal \<Rightarrow> rat option" where
  "dec_val (Finite s c e) = Some (fin_val s c e)"
| "dec_val d = None"

text \<open>The value of what a call returned: \<open>None\<close> when it raised or returned no number.\<close>

definition discount_value :: "error + decimal \<Rightarrow> rat option" where
  "discount_value r = (case r of Inl err \<Rightarrow> None | Inr d \<Rightarrow> dec_val d)"

text \<open>A negative amount: a non-zero finite number with the minus sign, or \<open>-Infinity\<close>.\<close>

fun dec_negative :: "decimal \<Rightarrow> bool" where
  "dec_negative (Finite s c e) = (s \<and> c \<noteq> 0)"
| "dec_negative (Infinity s) = s"
| "dec_negative d = False"

section \<open>Properties of process\_message\<close>




text \<open>
  C2 (as amended). On every payload whose \<open>text\<close> is true in Python's sense,
  \<open>process_message\<close> returns the triple of the value of \<open>text\<close>, the value under the key
  \<open>chat_session_id\<close> and the value under the key \<open>chat_user_id\<close>, each unchanged and
  \<open>None\<close> when its key is absent. The keys \<open>session_id\<close> and \<open>user_id\<close> are not read.
\<close>

theorem process_message_returns_chat_ids:
  "truthy (dict_get p ''text'') \<Longrightarrow>
   process_message p =
     Inr (dict_get p ''text'', dict_get p ''chat_session_id'', dict_get p ''chat_user_id'')
   \<and> process_message (p(''session_id'' := x, ''user_id'' := y)) = process_message p"
  by (simp add: process_message_def Let_def dict_get_def)

theorem process_message_returns_chat_ids_witness:
  "truthy (dict_get [''text'' \<mapsto> PyStr ''hi'', ''chat_session_id'' \<mapsto> PyStr ''s1''] ''text'')
   \<and> process_message [''text'' \<mapsto> PyStr ''hi'', ''chat_session_id'' \<mapsto> PyStr ''s1'']
       = Inr (PyStr ''hi'', PyStr ''s1'', PyNone)"
  using process_message_returns_chat_ids
    [of "[''text'' \<mapsto> PyStr ''hi'', ''chat_session_id'' \<mapsto> PyStr ''s1'']"]
  by (simp add: dict_get_def)

text \<open>
  C2 as the specification states it fails: with \<open>session_id\<close> set to \<open>s1\<close> and
  \<open>user_id\<close> to \<open>u1\<close>, the second and third components returned are \<open>None\<close>.
\<close>

theorem process_message_session_id_counterexample:
  "process_message
     [''text'' \<mapsto> PyStr ''hi'', ''session_id'' \<mapsto> PyStr ''s1'', ''user_id'' \<mapsto> PyStr ''u1'']
     = Inr (PyStr ''hi'', PyNone, PyNone)
   \<and> dict_get
       [''text'' \<mapsto> PyStr ''hi'', ''session_id'' \<mapsto> PyStr ''s1'', ''user_id'' \<mapsto> PyStr ''u1'']
       ''session_id'' = PyStr ''s1''
   \<and> dict_get
       [''text'' \<mapsto> PyStr ''hi'', ''session_id'' \<mapsto> PyStr ''s1'', ''user_id'' \<mapsto> PyStr ''u1'']
       ''user_id'' = PyStr ''u1''"
  by (simp add: process_message_def dict_get_def)

text \<open>
  C8 (as amended). For every payload whose \<open>text\<close> is absent or empty, the error that
  \<open>process_message\<close> signals is a \<open>ValueError\<close> carrying the message
  \<open>Missing 'text'\<close>.
\<close>

theorem process_message_error_message:
  "spec_text_absent_or_empty p \<Longrightarrow>
   process_message p = Inl (ValueError missing_text_msg)
   \<and> missing_text_msg =
       [CHR ''M'', CHR ''i'', CHR ''s'', CHR ''s'', CHR ''i'', CHR ''n'', CHR ''g'', CHR '' '',
        CHR 0x27, CHR ''t'', CHR ''e'', CHR ''x'', CHR ''t'', CHR 0x27]"
  by (auto simp: process_message_def dict_get_def spec_text_absent_or_empty_def
      missing_text_msg_def split: option.splits)

theorem process_message_error_message_witness:
  "spec_text_absent_or_empty [''session_id'' \<mapsto> PyStr ''s2'']
   \<and> process_message [''session_id'' \<mapsto> PyStr ''s2''] = Inl (ValueError missing_text_msg)"
  using process_message_error_message [of "[''session_id'' \<mapsto> PyStr ''s2'']"]
  by (simp add: spec_text_absent_or_empty_def)

text \<open>
  C8 as the specification states it fails: on the payload with no \<open>text\<close> key the
  message is not \<open>missing required field: text\<close>.
\<close>

theorem process_message_error_message_counterexample:
  "spec_text_absent_or_empty [''session_id'' \<mapsto> PyStr ''s2'']
   \<and> process_message [''session_id'' \<mapsto> PyStr ''s2'']
       \<noteq> Inl (ValueError ''missing required field: text'')"
  by (simp add: process_message_def dict_get_def spec_text_absent_or_empty_def
      missing_text_msg_def)

section \<open>Properties of the identification agent\<close>

lemma token_accepted_iff: "token_accepted t = (\<exists>r. t = ''valid-'' @ r)"
proof -
  have "startswith s p = (\<exists>r. s = p @ r)" for s p :: string
    by (induction s p rule: startswith.induct) auto
  then show ?thesis
    by (auto simp: token_accepted_def)
qed

lemma identify_fst: "fst (identify t a) = identified (snd (identify t a))"
  by (simp add: identify_def Let_def)

lemma identify_snd:
  "snd (identify t a) =
     (if token_accepted t then a\<lparr>identified := True, account_uuid := Some ''uuid-1234''\<rparr> else a)"
  by (simp add: identify_def Let_def)

lemma identify_paired: "paired a \<Longrightarrow> paired (snd (identify t a))"
  by (simp add: identify_snd paired_def)

lemma identify_all_paired: "paired a \<Longrightarrow> paired (identify_all ts a)"
  by (induction ts arbitrary: a) (simp_all add: identify_paired)

lemma identify_keeps_identified: "identified a \<Longrightarrow> identified (snd (identify t a))"
  by (simp add: identify_snd)

lemma identify_all_keeps_identified: "identified a \<Longrightarrow> identified (identify_all ts a)"
  by (induction ts arbitrary: a) (simp_all add: identify_keeps_identified)

lemma identify_all_append: "identify_all (ts @ us) a = identify_all us (identify_all ts a)"
  by (induction ts arbitrary: a) simp_all


text \<open>
  C3. After the constructor and after each of any finite sequence of \<open>identify\<close> calls
  with arbitrary tokens, \<open>account_uuid\<close> is not \<open>None\<close> if and only if \<open>identified\<close>
  is true. (The states after each call are those of the prefixes of the sequence.)
\<close>

theorem identify_all_init_paired:
  "paired (identify_all ts IdentificationAgent_init)
   \<and> (account_uuid (identify_all ts IdentificationAgent_init) \<noteq> None)
       = identified (identify_all ts IdentificationAgent_init)"
proof -
  have "paired IdentificationAgent_init"
    by (simp add: paired_def IdentificationAgent_init_def)
  then have "paired (identify_all ts IdentificationAgent_init)"
    by (rule identify_all_paired)
  then show ?thesis
    by (simp add: paired_def)
qed

text \<open>
  C4. From any agent and along any finite sequence of \<open>identify\<close> calls with arbitrary
  tokens: if \<open>identified\<close> is true after the calls \<open>ts\<close>, it is true after any further
  calls \<open>us\<close>, and each of those calls returns true.
\<close>

theorem identified_never_reverts:
  "identified (identify_all ts self) \<Longrightarrow>
   identified (identify_all (ts @ us) self)
   \<and> fst (identify t (identify_all (ts @ us) self))"
  by (simp add: identify_all_append identify_all_keeps_identified identify_fst
      identify_keeps_identified)

theorem identified_never_reverts_witness:
  "identified (identify_all [''valid-abc''] IdentificationAgent_init)
   \<and> identified (identify_all ([''valid-abc''] @ [''bad-token'', []]) IdentificationAgent_init)"
  using identified_never_reverts
    [of "[''valid-abc'']" IdentificationAgent_init "[''bad-token'', []]" "''x''"]
  by (simp add: identify_snd token_accepted_def)

text \<open>
  C5. On an unidentified agent \<open>identify\<close> returns true exactly for the tokens the
  provider accepts (the non-empty tokens that start with \<open>valid-\<close>); on true the agent
  is identified and its account identifier is the non-empty string \<open>uuid-1234\<close>, on
  false the agent is unchanged. On the fresh agent, \<open>valid-abc\<close> returns true with
  account \<open>uuid-1234\<close>; \<open>bad-token\<close> returns false and leaves the fresh agent, on which
  \<open>valid-xyz\<close> then succeeds.
\<close>

theorem identify_unidentified:
  "\<not> identified self \<Longrightarrow>
   fst (identify token self) = token_accepted token
   \<and> token_accepted token = (\<exists>r. token = ''valid-'' @ r)
   \<and> snd (identify token self) =
       (if token_accepted token
        then self\<lparr>identified := True, account_uuid := Some ''uuid-1234''\<rparr> else self)
   \<and> ''uuid-1234'' \<noteq> []
   \<and> identify ''valid-abc'' IdentificationAgent_init =
       (True, \<lparr>identified = True, account_uuid = Some ''uuid-1234''\<rparr>)
   \<and> identify ''bad-token'' IdentificationAgent_init = (False, IdentificationAgent_init)
   \<and> identify ''valid-xyz'' (snd (identify ''bad-token'' IdentificationAgent_init)) =
       (True, \<lparr>identified = True, account_uuid = Some ''uuid-1234''\<rparr>)"
proof -
  assume unid: "\<not> identified self"
  have general: "fst (identify token self) = token_accepted token"
    using unid by (simp add: identify_def Let_def)
  have abc: "token_accepted ''valid-abc''" and xyz: "token_accepted ''valid-xyz''"
    and bad: "\<not> token_accepted ''bad-token''"
    by (simp_all add: token_accepted_def)
  have scenarios:
    "identify ''valid-abc'' IdentificationAgent_init =
       (True, \<lparr>identified = True, account_uuid = Some ''uuid-1234''\<rparr>)"
    "identify ''bad-token'' IdentificationAgent_init = (False, IdentificationAgent_init)"
    "identify ''valid-xyz'' (snd (identify ''bad-token'' IdentificationAgent_init)) =
       (True, \<lparr>identified = True, account_uuid = Some ''uuid-1234''\<rparr>)"
    using abc xyz bad by (simp_all add: identify_def Let_def IdentificationAgent_init_def)
  show ?thesis
    using general scenarios token_accepted_iff [of token] identify_snd [of token self]
    by simp
qed

theorem identify_unidentified_witness:
  "\<not> identified IdentificationAgent_init
   \<and> fst (identify ''valid-abc'' IdentificationAgent_init)
   \<and> \<not> fst (identify ''bad-token'' IdentificationAgent_init)"
  using identify_unidentified [of IdentificationAgent_init "''valid-abc''"]
    identify_unidentified [of IdentificationAgent_init "''bad-token''"]
  by (simp add: IdentificationAgent_init_def token_accepted_def)

text \<open>
  C6. The freshly constructed agent has \<open>identified\<close> false and \<open>account_uuid\<close>
  \<open>None\<close>.
\<close>

theorem init_unidentified:
  "identified IdentificationAgent_init = False \<and> account_uuid IdentificationAgent_init = None"
  by (simp add: IdentificationAgent_init_def)



text \<open>
  C9. For every agent and every token, the value \<open>identify\<close> returns is the agent's
  \<open>identified\<close> flag after the call. The token \<open>bad-token\<close> is not accepted, yet on the
  agent identified by an earlier \<open>valid-abc\<close> the call \<open>identify("bad-token")\<close> returns
  true and changes nothing.
\<close>

theorem identify_returns_flag:
  "fst (identify token self) = identified (snd (identify token self))
   \<and> \<not> token_accepted ''bad-token''
   \<and> identified (snd (identify ''valid-abc'' IdentificationAgent_init))
   \<and> identify ''bad-token'' (snd (identify ''valid-abc'' IdentificationAgent_init))
       = (True, snd (identify ''valid-abc'' IdentificationAgent_init))"
proof -
  have bad: "\<not> token_accepted ''bad-token''" and abc: "token_accepted ''valid-abc''"
    by (simp_all add: token_accepted_def)
  show ?thesis
    using bad abc by (simp add: identify_def Let_def)
qed

section \<open>Properties of calculate\_discount\<close>

subsection \<open>Digits, and results that need no rounding\<close>

lemma ndigits_pos: "0 < ndigits c"
  by (induction c rule: ndigits.induct) (subst ndigits.simps, simp)

lemma ndigits_upper: "c < 10 ^ ndigits c"
proof (induction c rule: ndigits.induct)
  case (1 n)
  show ?case
  proof (cases "n < 10")
    case True
    then show ?thesis by (subst ndigits.simps) simp
  next
    case False
    then have "n div 10 < 10 ^ ndigits (n div 10)" using 1 by simp
    then have "n < 10 * 10 ^ ndigits (n div 10)" by linarith
    with False show ?thesis by (subst ndigits.simps) simp
  qed
qed

lemma ndigits_lower: "0 < c \<Longrightarrow> 10 ^ (ndigits c - 1) \<le> c"
proof (induction c rule: ndigits.induct)
  case (1 n)
  show ?case
  proof (cases "n < 10")
    case True
    with 1(2) show ?thesis by (subst ndigits.simps) simp
  next
    case False
    then have pos: "0 < n div 10" by simp
    then have "10 ^ (ndigits (n div 10) - 1) \<le> n div 10" using 1(1) False by simp
    then have "10 * 10 ^ (ndigits (n div 10) - 1) \<le> n" by linarith
    moreover have "ndigits (n div 10) = Suc (ndigits (n div 10) - 1)"
      using ndigits_pos [of "n div 10"] by simp
    ultimately have "10 ^ ndigits (n div 10) \<le> n"
      by (metis power_Suc)
    with False show ?thesis by (subst ndigits.simps) simp
  qed
qed

lemma ndigits_le: "0 < n \<Longrightarrow> c < 10 ^ n \<Longrightarrow> ndigits c \<le> n"
proof (rule ccontr)
  assume n: "0 < n" and c: "c < 10 ^ n" and "\<not> ndigits c \<le> n"
  then have lt: "n \<le> ndigits c - 1" by simp
  have "0 < c"
  proof (rule ccontr)
    assume "\<not> 0 < c"
    then have "c = 0" by simp
    then have "ndigits c = 1" by (subst ndigits.simps) simp
    with lt n show False by simp
  qed
  then have "10 ^ (ndigits c - 1) \<le> c" by (rule ndigits_lower)
  moreover have "(10::nat) ^ n \<le> 10 ^ (ndigits c - 1)"
    using lt by (simp add: power_increasing)
  ultimately show False using c by linarith
qed

lemma dec_fix_exact:
  assumes "c < 10 ^ 28" and "Etiny \<le> e" and "e \<le> Etop"
  shows "dec_fix (Finite s c e) = Inr (Finite s c e)"
proof (cases "c = 0")
  case True
  have "Etop \<le> Emax" by (simp add: Etop_def prec_def)
  with True assms show ?thesis by (simp add: dec_fix.simps)
next
  case False
  have "ndigits c \<le> 28" using assms(1) by (simp add: ndigits_le)
  then have le: "int (ndigits c) + e - int prec \<le> e" by (simp add: prec_def)
  then have "\<not> int (ndigits c) + e - int prec > Etop" using assms(3) by linarith
  moreover have "\<not> e < (if int (ndigits c) + e - int prec < Etiny then Etiny
                         else int (ndigits c) + e - int prec)"
    using le assms(2) by simp
  ultimately show ?thesis using False by (simp add: dec_fix.simps Let_def)
qed


lemma Etiny_Etop: "Etiny = - 1000026" "Etop = 999972"
  by (simp_all add: Etiny_def Etop_def Emin_def Emax_def prec_def)

lemma dec_mul_exact:
  assumes "ca * cb < 10 ^ 28" and "Etiny \<le> ea + eb" and "ea + eb \<le> Etop"
  shows "dec_mul (Finite sa ca ea) (Finite sb cb eb) = Inr (Finite (sa \<noteq> sb) (ca * cb) (ea + eb))"
  using assms by (simp add: dec_mul_def check_nans_def dec_fix_exact)

lemma tiered_exact:
  assumes "\<bar>t\<bar> < 10 ^ 27"
  shows "dec_mul (Decimal_of_int t) (Finite False 5 (- 2)) =
           Inr (Finite (t < 0) (nat \<bar>t\<bar> * 5) (- 2))"
proof -
  have "nat \<bar>t\<bar> * 5 < 10 ^ 28" using assms by (simp add: nat_less_iff)
  then show ?thesis
    unfolding Decimal_of_int_def by (simp add: dec_mul_exact Etiny_Etop)
qed

lemma ndigits_5: "ndigits 5 = 1"
  by (subst ndigits.simps) simp

lemma base_exact:
  assumes "\<bar>t\<bar> < 10 ^ 27"
  shows "dec_add (Finite False 5 (- 2)) (Finite (t < 0) (nat \<bar>t\<bar> * 5) (- 2)) =
           Inr (Finite (t < - 1) (nat \<bar>5 + 5 * t\<bar>) (- 2))"
proof -
  have bound: "nat \<bar>5 + 5 * t\<bar> < 10 ^ 28" using assms by (simp add: nat_less_iff)
  have fixed: "dec_fix (Finite s (nat \<bar>5 + 5 * t\<bar>) (- 2)) = Inr (Finite s (nat \<bar>5 + 5 * t\<bar>) (- 2))"
    for s
    using bound by (simp add: dec_fix_exact Etiny_Etop)
  have nd: "\<not> int (ndigits (nat \<bar>t\<bar> * 5)) < - 28"
    by simp
  consider "t = 0" | "0 < t" | "t = - 1" | "t < - 1" by linarith
  then show ?thesis
  proof cases
    case 1
    then show ?thesis
      using fixed [of False]
      by (simp add: dec_add_def check_nans_def prec_def Let_def)
  next
    case 2
    then have sum: "5 + nat t * 5 = nat \<bar>5 + 5 * t\<bar>" by linarith
    from 2 show ?thesis
      using fixed [of False] nd
      by (simp add: dec_add_def check_nans_def prec_def Let_def ndigits_5 sum)
  next
    case 3
    then show ?thesis
      using fixed [of False]
      by (simp add: dec_add_def check_nans_def prec_def Let_def ndigits_5)
  next
    case 4
    define n where "n = nat (- t)"
    have n: "Suc 0 < n" "n \<noteq> Suc 0" using 4 by (simp_all add: n_def)
    have t: "t = - int n" using 4 by (simp add: n_def)
    have diff: "n * 5 - 5 = nat \<bar>5 + 5 * t\<bar>" using n t by linarith
    have "dec_add (Finite False 5 (- 2)) (Finite True (n * 5) (- 2)) =
            Inr (Finite True (n * 5 - 5) (- 2))"
      using fixed [of True] n
      by (simp add: dec_add_def check_nans_def prec_def Let_def ndigits_5 diff)
    then show ?thesis
      using 4 by (simp add: diff n_def)
  qed
qed


lemma fin_val_mag: "fin_val s c e = (if s then - mag c e else mag c e)"
  by (simp add: fin_val_def mag_def sign_unit_def)

lemma mag_nonneg: "0 \<le> mag c e"
  by (simp add: mag_def)

lemma mag_pos: "0 < c \<Longrightarrow> 0 < mag c e"
  by (simp add: mag_def)

lemma mag_zero: "mag 0 e = 0"
  by (simp add: mag_def)

lemma pow10_add: "power_int (10::rat) (e + int k) = power_int 10 e * 10 ^ k"
  by (simp add: power_int_add)

lemma mag_upper: "mag c e < power_int 10 (e + int (ndigits c))"
proof -
  have "(of_nat c :: rat) < of_nat (10 ^ ndigits c)"
    using ndigits_upper [of c] by (simp only: of_nat_less_iff)
  then have "(of_nat c :: rat) * power_int 10 e < 10 ^ ndigits c * power_int 10 e"
    by (simp add: mult_strict_right_mono)
  then show ?thesis
    by (simp add: mag_def pow10_add mult.commute)
qed

lemma mag_lower:
  assumes "0 < c"
  shows "power_int 10 (e + int (ndigits c) - 1) \<le> mag c e"
proof -
  have "(of_nat (10 ^ (ndigits c - 1)) :: rat) \<le> of_nat c"
    using ndigits_lower [OF assms] by (rule of_nat_mono)
  then have a: "(10 ^ (ndigits c - 1) :: rat) \<le> of_nat c"
    by simp
  have b: "(10 ^ (ndigits c - 1) :: rat) * power_int 10 e \<le> of_nat c * power_int 10 e"
    using a by (rule mult_right_mono) simp
  have "e + int (ndigits c) - 1 = e + int (ndigits c - 1)"
    using ndigits_pos [of c] by simp
  then have c: "power_int (10::rat) (e + int (ndigits c) - 1) = power_int 10 e * 10 ^ (ndigits c - 1)"
    by (simp only: pow10_add)
  show ?thesis
    unfolding mag_def c using b by (simp only: mult.commute)
qed

lemma mag_adjusted_less:
  assumes "0 < cb" and "ea + int (ndigits ca) - 1 < eb + int (ndigits cb) - 1"
  shows "mag ca ea < mag cb eb"
proof -
  have "mag ca ea < power_int 10 (ea + int (ndigits ca))"
    by (rule mag_upper)
  also have "\<dots> \<le> power_int 10 (eb + int (ndigits cb) - 1)"
    using assms(2) by (intro power_int_increasing) simp_all
  also have "\<dots> \<le> mag cb eb"
    using assms(1) by (rule mag_lower)
  finally show ?thesis .
qed

lemma mag_padded: "mag c e = of_nat (c * 10 ^ nat (e - e')) * power_int 10 (min e e')"
proof (cases "e' \<le> e")
  case True
  then have "e = e' + int (nat (e - e'))" by simp
  then have "power_int (10::rat) e = power_int 10 e' * 10 ^ nat (e - e')"
    by (metis pow10_add)
  with True show ?thesis
    by (simp add: mag_def min_def)
next
  case False
  then show ?thesis
    by (simp add: mag_def min_def)
qed

lemma mag_padded_less:
  "(ca * 10 ^ nat (ea - eb) < cb * 10 ^ nat (eb - ea)) = (mag ca ea < mag cb eb)"
proof -
  have pos: "0 < power_int (10::rat) (min ea eb)" by simp
  have "(mag ca ea < mag cb eb) =
          ((of_nat (ca * 10 ^ nat (ea - eb)) :: rat) * power_int 10 (min ea eb)
            < of_nat (cb * 10 ^ nat (eb - ea)) * power_int 10 (min ea eb))"
    by (subst mag_padded [of ca ea eb], subst mag_padded [of cb eb ea]) (simp add: min.commute)
  also have "\<dots> = ((of_nat (ca * 10 ^ nat (ea - eb)) :: rat) < of_nat (cb * 10 ^ nat (eb - ea)))"
    using pos by (simp only: mult_less_cancel_right_pos)
  also have "\<dots> = (ca * 10 ^ nat (ea - eb) < cb * 10 ^ nat (eb - ea))"
    by (simp only: of_nat_less_iff)
  finally show ?thesis by simp
qed

lemma mag_padded_eq:
  "(ca * 10 ^ nat (ea - eb) = cb * 10 ^ nat (eb - ea)) = (mag ca ea = mag cb eb)"
  using mag_padded_less [of ca ea eb cb] mag_padded_less [of cb eb ea ca]
  by (metis less_irrefl nat_neq_iff not_less_iff_gr_or_eq)

lemma dec_cmp_finite_less:
  "(dec_cmp (Finite sa ca ea) (Finite sb cb eb) < 0) = (fin_val sa ca ea < fin_val sb cb eb)"
proof -
  consider "ca = 0" | "0 < ca" "cb = 0" | "0 < ca" "0 < cb" "sa \<noteq> sb" | "0 < ca" "0 < cb" "sa = sb"
    by auto
  then show ?thesis
  proof cases
    case 1
    then show ?thesis
      using mag_pos [of cb eb]
      by (cases "cb = 0") (auto simp: fin_val_mag mag_zero sign_unit_def)
  next
    case 2
    then show ?thesis
      using mag_pos [of ca ea]
      by (auto simp: fin_val_mag mag_zero sign_unit_def)
  next
    case 3
    then show ?thesis
      using mag_pos [of ca ea] mag_pos [of cb eb]
      by (auto simp: fin_val_mag)
  next
    case 4
    let ?aa = "ea + int (ndigits ca) - 1" and ?ab = "eb + int (ndigits cb) - 1"
    have lt: "?aa < ?ab \<Longrightarrow> mag ca ea < mag cb eb"
      using 4(2) by (rule mag_adjusted_less)
    have gt: "?ab < ?aa \<Longrightarrow> mag cb eb < mag ca ea"
      using 4(1) by (rule mag_adjusted_less)
    consider "?aa = ?ab" | "?aa < ?ab" | "?ab < ?aa" by linarith
    then show ?thesis
    proof cases
      case 1
      with 4 show ?thesis
        using mag_padded_less [of ca ea eb cb] mag_padded_eq [of ca ea eb cb]
        by (auto simp: fin_val_mag sign_unit_def Let_def)
    next
      case 2
      with 4 lt show ?thesis
        by (auto simp: fin_val_mag sign_unit_def Let_def)
    next
      case 3
      with 4 gt show ?thesis
        by (auto simp: fin_val_mag sign_unit_def Let_def)
    qed
  qed
qed


lemma dec_lt_zero: "\<not> is_nan a \<Longrightarrow> dec_lt a (Decimal_of_int 0) = Inr (dec_negative a)"
  by (cases a) (auto simp: dec_lt_def Decimal_of_int_def sign_unit_def isinfinity_def)

lemma dec_lt_nan: "is_nan a \<Longrightarrow> dec_lt a b = Inl InvalidOperation"
  by (simp add: dec_lt_def)

lemma dec_fix_no_ValueError: "dec_fix d \<noteq> Inl (ValueError m)"
  by (cases d) (simp_all add: dec_fix.simps Let_def)

lemma dec_mul_finite_no_ValueError: "dec_mul_finite a b \<noteq> Inl (ValueError m)"
  by (cases a; cases b) (simp_all add: dec_fix_no_ValueError)

lemma dec_mul_no_ValueError: "dec_mul a b \<noteq> Inl (ValueError m)"
  by (auto simp: dec_mul_def check_nans_def dec_mul_finite_no_ValueError
      split: option.splits if_splits)

lemma dec_add_finite_no_ValueError: "dec_add_finite a b \<noteq> Inl (ValueError m)"
  by (cases a; cases b) (simp_all add: dec_fix_no_ValueError Let_def del: dec_rescale.simps)

lemma dec_add_no_ValueError: "dec_add a b \<noteq> Inl (ValueError m)"
  by (auto simp: dec_add_def check_nans_def dec_add_finite_no_ValueError
      split: option.splits if_splits)

lemma py_min_no_ValueError: "py_min x y \<noteq> Inl (ValueError m)"
  by (simp add: py_min_def dec_lt_def)

lemma calculate_discount_ValueError:
  "(calculate_discount t a = Inl (ValueError m)) = (dec_negative a \<and> m = ''Negative amount'')"
proof (cases "is_nan a")
  case True
  then have "\<not> dec_negative a" by (cases a) simp_all
  with True show ?thesis
    by (simp add: calculate_discount_def dec_lt_nan)
next
  case False
  show ?thesis
  proof (cases "dec_negative a")
    case True
    then show ?thesis
      by (auto simp: calculate_discount_def dec_lt_zero [OF False])
  next
    case neg: False
    have "calculate_discount t a \<noteq> Inl (ValueError m)"
      by (auto simp: calculate_discount_def dec_lt_zero [OF False] neg dec_mul_no_ValueError
          dec_add_no_ValueError py_min_no_ValueError split: sum.splits)
    with neg show ?thesis by simp
  qed
qed


lemma fin_val_mult:
  "fin_val (sa \<noteq> sb) (ca * cb) (ea + eb) = fin_val sa ca ea * fin_val sb cb eb"
  by (simp add: fin_val_def sign_unit_def power_int_add)

lemma pow10_minus2: "power_int (10::rat) (- 2) = 1 / 100"
  by (simp add: power_int_minus)

lemma pow10_minus1: "power_int (10::rat) (- 1) = 1 / 10"
  by (simp add: power_int_minus)

lemma fin_val_base: "fin_val (t < - 1) (nat \<bar>5 + 5 * t\<bar>) (- 2) = 1 / 20 + of_int t / 20"
proof -
  have abs: "rat_of_nat (nat \<bar>5 + 5 * t\<bar>) = \<bar>5 + 5 * of_int t\<bar>"
    by simp
  show ?thesis
  proof (cases "t < - 1")
    case True
    then have "rat_of_int t < rat_of_int (- 1)"
      by (simp only: of_int_less_iff)
    then have "5 + 5 * rat_of_int t < 0"
      by simp
    then show ?thesis
      using True by (simp add: fin_val_def sign_unit_def abs pow10_minus2)
  next
    case False
    then have "rat_of_int (- 1) \<le> rat_of_int t"
      by (simp only: of_int_le_iff)
    then have "0 \<le> 5 + 5 * rat_of_int t"
      by simp
    then show ?thesis
      using False by (simp add: fin_val_def sign_unit_def abs pow10_minus2)
  qed
qed

lemma fin_val_cap: "fin_val False 3 (- 1) = 3 / 10"
  by (simp add: fin_val_def sign_unit_def pow10_minus1)

lemma calculate_discount_steps:
  assumes tier: "\<bar>t\<bar> < 10 ^ 27"
    and cap: "c * 3 < 10 ^ 28"
    and disc: "c * nat \<bar>5 + 5 * t\<bar> < 10 ^ 28"
    and lo: "- 1000024 \<le> e" and hi: "e \<le> 999973"
    and nonneg: "\<not> (s \<and> c \<noteq> 0)"
  shows "calculate_discount t (Finite s c e) =
           py_min (Finite (s \<noteq> (t < - 1)) (c * nat \<bar>5 + 5 * t\<bar>) (e + - 2))
                  (Finite (s \<noteq> False) (c * 3) (e + - 1))"
proof -
  have lt: "dec_lt (Finite s c e) (Decimal_of_int 0) = Inr False"
    using nonneg dec_lt_zero [of "Finite s c e"] by simp
  have d: "dec_mul (Finite s c e) (Finite (t < - 1) (nat \<bar>5 + 5 * t\<bar>) (- 2)) =
             Inr (Finite (s \<noteq> (t < - 1)) (c * nat \<bar>5 + 5 * t\<bar>) (e + - 2))"
    using disc lo hi by (intro dec_mul_exact) (simp_all add: Etiny_Etop)
  have c: "dec_mul (Finite s c e) (Finite False 3 (- 1)) =
             Inr (Finite (s \<noteq> False) (c * 3) (e + - 1))"
    using cap lo hi by (intro dec_mul_exact) (simp_all add: Etiny_Etop)
  show ?thesis
    unfolding calculate_discount_def
    by (simp only: lt tiered_exact [OF tier] base_exact [OF tier] d c sum.case bool.case)
qed

lemma py_min_finite:
  "py_min (Finite sa ca ea) (Finite sb cb eb) =
     Inr (if fin_val sb cb eb < fin_val sa ca ea then Finite sb cb eb else Finite sa ca ea)"
  using dec_cmp_finite_less [of sb cb eb sa ca ea]
  by (simp add: py_min_def dec_lt_def del: dec_cmp.simps)

lemma py_min_value:
  "discount_value (py_min (Finite sa ca ea) (Finite sb cb eb)) =
     Some (min (fin_val sa ca ea) (fin_val sb cb eb))"
  by (simp add: py_min_finite discount_value_def min_def)

lemma calculate_discount_exact:
  assumes "\<bar>t\<bar> < 10 ^ 27"
    and "c * 3 < 10 ^ 28"
    and "c * nat \<bar>5 + 5 * t\<bar> < 10 ^ 28"
    and "- 1000024 \<le> e" and "e \<le> 999973"
    and "\<not> (s \<and> c \<noteq> 0)"
  shows "discount_value (calculate_discount t (Finite s c e)) =
           Some (min (fin_val s c e * (1 / 20 + of_int t / 20)) (fin_val s c e * (3 / 10)))"
proof -
  have "fin_val (s \<noteq> (t < - 1)) (c * nat \<bar>5 + 5 * t\<bar>) (e + - 2) =
          fin_val s c e * (1 / 20 + of_int t / 20)"
    by (simp only: fin_val_mult fin_val_base)
  moreover have "fin_val (s \<noteq> False) (c * 3) (e + - 1) = fin_val s c e * (3 / 10)"
    by (simp only: fin_val_mult fin_val_cap)
  ultimately show ?thesis
    by (simp only: calculate_discount_steps [OF assms] py_min_value)
qed

text \<open>
  C10 (as amended). In the default context, for every integer \<open>user_tier\<close> and every
  Decimal \<open>amount\<close>: \<open>calculate_discount\<close> raises \<open>ValueError\<close> (with the message
  \<open>Negative amount\<close>) exactly when \<open>amount\<close> is negative, and a NaN amount raises
  \<open>InvalidOperation\<close>. For a finite amount that is not negative, with coefficient \<open>c\<close>
  and exponent \<open>e\<close>, such that no result is rounded or leaves the exponent range
  (\<open>|user_tier| < 10^27\<close>, \<open>3 c < 10^28\<close>, \<open>c |5 + 5 user_tier| < 10^28\<close> and
  \<open>-1000024 \<le> e \<le> 999973\<close>), it returns a Decimal whose value is exactly
  \<open>min (amount * (0.05 + 0.05 * user_tier)) (amount * 0.3)\<close>; that value never exceeds
  30 percent of the amount, and for \<open>user_tier \<ge> 5\<close> it is exactly 30 percent of the
  amount.
\<close>

theorem calculate_discount_default_context:
  assumes "\<bar>t\<bar> < 10 ^ 27"
    and "c * 3 < 10 ^ 28"
    and "c * nat \<bar>5 + 5 * t\<bar> < 10 ^ 28"
    and "- 1000024 \<le> e" and "e \<le> 999973"
    and "\<not> (s \<and> c \<noteq> 0)"
  shows "(calculate_discount u a = Inl (ValueError m)) = (dec_negative a \<and> m = ''Negative amount'')
    \<and> calculate_discount u (NaN sg p) = Inl InvalidOperation
    \<and> calculate_discount u (sNaN sg p) = Inl InvalidOperation
    \<and> discount_value (calculate_discount t (Finite s c e)) =
        Some (min (fin_val s c e * (1 / 20 + of_int t / 20)) (fin_val s c e * (3 / 10)))
    \<and> min (fin_val s c e * (1 / 20 + of_int t / 20)) (fin_val s c e * (3 / 10))
        \<le> fin_val s c e * (3 / 10)
    \<and> (5 \<le> t \<longrightarrow>
        min (fin_val s c e * (1 / 20 + of_int t / 20)) (fin_val s c e * (3 / 10))
          = fin_val s c e * (3 / 10))"
proof -
  have nan: "calculate_discount u (NaN sg p) = Inl InvalidOperation"
    "calculate_discount u (sNaN sg p) = Inl InvalidOperation"
    by (simp_all add: calculate_discount_def dec_lt_nan)
  have x: "0 \<le> fin_val s c e"
    using assms(6) mag_nonneg [of c e] by (auto simp: fin_val_mag mag_zero)
  have top: "fin_val s c e * (3 / 10) \<le> fin_val s c e * (1 / 20 + of_int t / 20)" if "5 \<le> t"
  proof -
    from that have "rat_of_int 5 \<le> rat_of_int t" by (simp only: of_int_le_iff)
    then have "(3 / 10 :: rat) \<le> 1 / 20 + of_int t / 20" by simp
    then show ?thesis using x by (rule mult_left_mono)
  qed
  have capped:
    "min (fin_val s c e * (1 / 20 + of_int t / 20)) (fin_val s c e * (3 / 10))
       \<le> fin_val s c e * (3 / 10)"
    by (rule min.cobounded2)
  have at_cap:
    "5 \<le> t \<longrightarrow>
       min (fin_val s c e * (1 / 20 + of_int t / 20)) (fin_val s c e * (3 / 10))
         = fin_val s c e * (3 / 10)"
  proof
    assume "5 \<le> t"
    then have "fin_val s c e * (3 / 10) \<le> fin_val s c e * (1 / 20 + of_int t / 20)"
      by (rule top)
    then show "min (fin_val s c e * (1 / 20 + of_int t / 20)) (fin_val s c e * (3 / 10))
                 = fin_val s c e * (3 / 10)"
      by (rule min.absorb2)
  qed
  show ?thesis
    using calculate_discount_ValueError [of u a m] nan calculate_discount_exact [OF assms]
      capped at_cap
    by blast
qed

theorem calculate_discount_default_context_witness:
  "\<bar>7 :: int\<bar> < 10 ^ 27 \<and> (10000 :: nat) * 3 < 10 ^ 28
   \<and> (10000 :: nat) * nat \<bar>5 + 5 * 7\<bar> < 10 ^ 28
   \<and> (- 1000024 :: int) \<le> - 2 \<and> (- 2 :: int) \<le> 999973
   \<and> \<not> (False \<and> (10000 :: nat) \<noteq> 0) \<and> (5 :: int) \<le> 7
   \<and> discount_value (calculate_discount 7 (Finite False 10000 (- 2))) = Some 30
   \<and> discount_value (calculate_discount 2 (Finite False 10000 (- 2))) = Some 15
   \<and> calculate_discount 2 (Finite True 10000 (- 2)) = Inl (ValueError ''Negative amount'')"
  using calculate_discount_default_context
      [of 2 10000 "- 2" False 2 "Finite True 10000 (- 2)" "''Negative amount''"]
    calculate_discount_default_context [of 7 10000 "- 2" False]
  by (simp add: fin_val_def sign_unit_def pow10_minus2)

subsection \<open>A result that is rounded\<close>

lemma ndigits_eq:
  assumes "0 < n" and "10 ^ (n - 1) \<le> c" and "c < 10 ^ n"
  shows "ndigits c = n"
proof -
  have le: "ndigits c \<le> n" using assms(1,3) by (rule ndigits_le)
  have "\<not> ndigits c < n"
  proof
    assume "ndigits c < n"
    then have "(10::nat) ^ ndigits c \<le> 10 ^ (n - 1)"
      by (intro power_increasing) simp_all
    with ndigits_upper [of c] assms(2) show False by linarith
  qed
  with le show ?thesis by simp
qed

lemma nd30: "ndigits 299999999999999999999999999970 = 30"
  by (rule ndigits_eq) simp_all

lemma nd29: "ndigits 29999999999999999999999999997 = 29"
  by (rule ndigits_eq) simp_all

lemma nd28: "ndigits 3000000000000000000000000000 = 28"
  by (rule ndigits_eq) simp_all

lemma discount_rounded:
  "dec_fix (Finite False 299999999999999999999999999970 (- 2))
     = Inr (Finite False 3000000000000000000000000000 0)"
  by (simp add: dec_fix.simps round_half_even_def nd30 nd28 Let_def prec_def Etiny_Etop)

lemma cap_rounded:
  "dec_fix (Finite False 29999999999999999999999999997 (- 1))
     = Inr (Finite False 3000000000000000000000000000 0)"
  by (simp add: dec_fix.simps round_half_even_def nd29 nd28 Let_def prec_def Etiny_Etop)

text \<open>
  C10 as stated fails. The amount of 28 nines with tier 5: both products have more than
  28 digits and are rounded up to \<open>3 * 10^27\<close>, which is what is returned; it is more
  than 30 percent of the amount, \<open>2999999999999999999999999999.7\<close>. And a NaN amount,
  which is not negative, raises \<open>InvalidOperation\<close> instead of returning.
\<close>

theorem calculate_discount_rounding_counterexample:
  "calculate_discount 5 (Finite False 9999999999999999999999999999 0)
     = Inr (Finite False 3000000000000000000000000000 0)
   \<and> fin_val False 9999999999999999999999999999 0 * (3 / 10)
       < fin_val False 3000000000000000000000000000 0
   \<and> calculate_discount 5 (NaN False 0) = Inl InvalidOperation"
proof -
  have lt: "dec_lt (Finite False 9999999999999999999999999999 0) (Decimal_of_int 0) = Inr False"
    by (simp add: dec_lt_zero)
  have tiered: "dec_mul (Decimal_of_int 5) (Finite False 5 (- 2)) = Inr (Finite False 25 (- 2))"
    using tiered_exact [of 5] by simp
  have base: "dec_add (Finite False 5 (- 2)) (Finite False 25 (- 2)) = Inr (Finite False 30 (- 2))"
    using base_exact [of 5] by simp
  have discount:
    "dec_mul (Finite False 9999999999999999999999999999 0) (Finite False 30 (- 2))
       = Inr (Finite False 3000000000000000000000000000 0)"
    by (simp add: dec_mul_def check_nans_def discount_rounded)
  have cap:
    "dec_mul (Finite False 9999999999999999999999999999 0) (Finite False 3 (- 1))
       = Inr (Finite False 3000000000000000000000000000 0)"
    by (simp add: dec_mul_def check_nans_def cap_rounded)
  have result:
    "calculate_discount 5 (Finite False 9999999999999999999999999999 0)
       = Inr (Finite False 3000000000000000000000000000 0)"
    unfolding calculate_discount_def
    by (simp only: lt tiered base discount cap sum.case bool.case py_min_finite if_cancel)
  have exceeds:
    "fin_val False 9999999999999999999999999999 0 * (3 / 10)
       < fin_val False 3000000000000000000000000000 0"
    by (simp add: fin_val_def sign_unit_def)
  have nan: "calculate_discount 5 (NaN False 0) = Inl InvalidOperation"
    by (simp add: calculate_discount_def dec_lt_nan)
  show ?thesis
    using result exceeds nan by (simp only: simp_thms)
qed

end
